theory Spec2Isabelle
  imports Main "HOL-Library.Char_ord" "HOL-Library.List_Lexorder" "HOL-Library.Multiset"
begin

section \<open>Python values and exceptions\<close>

text \<open>
  The generator works on whatever the JSON decoder hands back, so the model keeps Python's
  dynamic typing: a decoded value is \<open>None\<close>, a bool, an int, a str, a list or a dict with
  string keys. JSON numbers with a fraction or an exponent (Python floats) are not
  represented. Strings are character lists; \<open>lower\<close>, \<open>isdigit\<close> and \<open>int\<close> are modelled on
  ASCII, where they agree with Python's Unicode-aware versions.

  A dict is the list of its items in insertion order. A key's value is that of its first
  item, and the keys are listed once each in order of first appearance, so that every item
  list denotes one Python dict.
\<close>

datatype pyval =
    PNone
  | PBool bool
  | PInt int
  | PStr string
  | PList "pyval list"
  | PDict "(string \<times> pyval) list"

datatype py_error =
    TypeError | AttributeError | ValueError | KeyError | IndexError
  | RequestException | HTTPError | JSONDecodeError | OSError

definition dict_keys :: "(string \<times> pyval) list \<Rightarrow> string list" where
  "dict_keys kvs = rev (remdups (rev (map fst kvs)))"

definition dict_lookup :: "(string \<times> pyval) list \<Rightarrow> string \<Rightarrow> pyval option" where
  "dict_lookup kvs k = map_of kvs k"

text \<open>Truth value testing (\<open>if x\<close>, \<open>not x\<close>).\<close>

fun truthy :: "pyval \<Rightarrow> bool" where
  "truthy PNone = False"
| "truthy (PBool b) = b"
| "truthy (PInt n) = (n \<noteq> 0)"
| "truthy (PStr s) = (s \<noteq> [])"
| "truthy (PList xs) = (xs \<noteq> [])"
| "truthy (PDict kvs) = (kvs \<noteq> [])"

subsection \<open>String methods\<close>

text \<open>\<open>sub in s\<close> on strings: \<open>sub\<close> occurs somewhere in \<open>s\<close>.\<close>

fun str_contains :: "string \<Rightarrow> string \<Rightarrow> bool" where
  "str_contains sub [] = (sub = [])"
| "str_contains sub (c # cs) = (take (length sub) (c # cs) = sub \<or> str_contains sub cs)"

text \<open>
  \<open>s.replace(old, new)\<close>: every non-overlapping occurrence of \<open>old\<close>, scanning from the left.
  With an empty \<open>old\<close> Python inserts \<open>new\<close> before every character and at the end.
\<close>

function str_replace :: "string \<Rightarrow> string \<Rightarrow> string \<Rightarrow> string" where
  "str_replace old new s =
     (if old = [] then new @ concat (map (\<lambda>c. c # new) s)
      else if s = [] then []
      else if take (length old) s = old then new @ str_replace old new (drop (length old) s)
      else hd s # str_replace old new (tl s))"
  by pat_completeness auto
termination
  by (relation "measure (\<lambda>(old, new, s). length s)") (auto simp: neq_Nil_conv)

declare str_replace.simps [simp del]

definition lower_char :: "char \<Rightarrow> char" where
  "lower_char c =
     (if CHR ''A'' \<le> c \<and> c \<le> CHR ''Z'' then char_of (of_char c + (32::nat)) else c)"

definition str_lower :: "string \<Rightarrow> string" where
  "str_lower s = map lower_char s"

definition is_digit_char :: "char \<Rightarrow> bool" where
  "is_digit_char c = (CHR ''0'' \<le> c \<and> c \<le> CHR ''9'')"

text \<open>\<open>s.isdigit()\<close>: at least one character, and all of them digits.\<close>

definition isdigit :: "string \<Rightarrow> bool" where
  "isdigit s = (s \<noteq> [] \<and> list_all is_digit_char s)"

subsection \<open>\<open>str(x)\<close>\<close>

definition digit_char :: "nat \<Rightarrow> char" where
  "digit_char d = char_of (48 + d)"

fun digits_of_nat :: "nat \<Rightarrow> string" where
  "digits_of_nat n =
     (if n < 10 then [digit_char n] else digits_of_nat (n div 10) @ [digit_char (n mod 10)])"

declare digits_of_nat.simps [simp del]

definition str_int :: "int \<Rightarrow> string" where
  "str_int i = (if i < 0 then CHR ''-'' # digits_of_nat (nat (- i)) else digits_of_nat (nat i))"

definition hex_char :: "nat \<Rightarrow> char" where
  "hex_char d = (if d < 10 then char_of (48 + d) else char_of (87 + d))"

text \<open>\<open>repr\<close> of a str, as it appears inside the \<open>str\<close> of a list or dict.\<close>

definition repr_char :: "char \<Rightarrow> char \<Rightarrow> string" where
  "repr_char q c =
     (if c = q \<or> c = CHR 0x5C then [CHR 0x5C, c]
      else if c = CHR 0x09 then [CHR 0x5C, CHR ''t'']
      else if c = CHR 0x0A then [CHR 0x5C, CHR ''n'']
      else if c = CHR 0x0D then [CHR 0x5C, CHR ''r'']
      else if (of_char c :: nat) < 32 \<or> (of_char c :: nat) = 127
        then [CHR 0x5C, CHR ''x'', hex_char (of_char c div 16), hex_char (of_char c mod 16)]
      else [c])"

definition repr_str :: "string \<Rightarrow> string" where
  "repr_str s =
     (let q = (if CHR 0x27 \<in> set s \<and> CHR 0x22 \<notin> set s then CHR 0x22 else CHR 0x27)
      in q # concat (map (repr_char q) s) @ [q])"

fun join :: "string \<Rightarrow> string list \<Rightarrow> string" where
  "join sep [] = []"
| "join sep [x] = x"
| "join sep (x # y # ys) = x @ sep @ join sep (y # ys)"

fun py_repr :: "pyval \<Rightarrow> string" where
  "py_repr PNone = ''None''"
| "py_repr (PBool b) = (if b then ''True'' else ''False'')"
| "py_repr (PInt i) = str_int i"
| "py_repr (PStr s) = repr_str s"
| "py_repr (PList xs) = ''['' @ join '', '' (map py_repr xs) @ '']''"
| "py_repr (PDict kvs) =
     ''{'' @ join '', '' (map (\<lambda>(k, v). repr_str k @ '': '' @ py_repr v) kvs) @ ''}''"

text \<open>\<open>str(x)\<close>, which is also what an f-string field \<open>{x}\<close> renders.\<close>

definition py_str :: "pyval \<Rightarrow> string" where
  "py_str v = (case v of PStr s \<Rightarrow> s | _ \<Rightarrow> py_repr v)"

section \<open>Stream URL resolver\<close>

subsection \<open>Operations on decoded values\<close>

text \<open>\<open>obj.get(key, default)\<close>: only a dict has the method.\<close>

definition py_get :: "pyval \<Rightarrow> string \<Rightarrow> pyval \<Rightarrow> py_error + pyval" where
  "py_get obj k dflt =
     (case obj of
        PDict kvs \<Rightarrow> (case dict_lookup kvs k of Some v \<Rightarrow> Inr v | None \<Rightarrow> Inr dflt)
      | _ \<Rightarrow> Inl AttributeError)"

text \<open>
  \<open>needle in obj\<close> for a string \<open>needle\<close>: substring of a str, element of a list, key of a
  dict; the other values are not iterable.
\<close>

definition py_in :: "string \<Rightarrow> pyval \<Rightarrow> py_error + bool" where
  "py_in needle obj =
     (case obj of
        PStr s \<Rightarrow> Inr (str_contains needle s)
      | PList xs \<Rightarrow> Inr (PStr needle \<in> set xs)
      | PDict kvs \<Rightarrow> Inr (needle \<in> set (map fst kvs))
      | _ \<Rightarrow> Inl TypeError)"

text \<open>\<open>obj.replace(old, new)\<close>: only a str has the method.\<close>

definition py_replace :: "pyval \<Rightarrow> string \<Rightarrow> string \<Rightarrow> py_error + pyval" where
  "py_replace obj old new =
     (case obj of PStr s \<Rightarrow> Inr (PStr (str_replace old new s)) | _ \<Rightarrow> Inl AttributeError)"

subsection \<open>The provider, as seen through one \<open>requests.Session\<close>\<close>

record http_response =
  status_code :: int
  headers :: "(string \<times> string) list"
  body_json :: "py_error + pyval"
  body_text :: string

text \<open>
  \<open>session_get url\<close> and \<open>session_post url json headers\<close> either raise or give a response.
  Anything the session carries from the first request to the second is part of the
  function \<open>session_post\<close> of that session.
\<close>

record session =
  session_get :: "string \<Rightarrow> py_error + http_response"
  session_post :: "string \<Rightarrow> pyval \<Rightarrow> (string \<times> string) list \<Rightarrow> py_error + http_response"

text \<open>Response headers are looked up without regard to case.\<close>

definition header_lookup :: "(string \<times> string) list \<Rightarrow> string \<Rightarrow> string option" where
  "header_lookup hs k = map_of (map (\<lambda>(a, b). (str_lower a, b)) hs) (str_lower k)"

datatype level = INFO | WARNING | ERROR

type_synonym log_record = "level \<times> string \<times> py_error option"

definition root_url :: string where
  "root_url = ''https://therokuchannel.roku.com/''"

definition playback_url :: string where
  "playback_url = ''https://therokuchannel.roku.com/api/v3/playback''"

definition playback_data :: "string \<Rightarrow> pyval" where
  "playback_data channel_id =
     PDict [(''rokuId'', PStr channel_id), (''playId'', PStr ''live''),
            (''mediaFormat'', PStr ''m3u''), (''drmType'', PStr ''widevine''),
            (''quality'', PStr ''fhd''), (''bifUrl'', PNone),
            (''adPolicyId'', PStr []), (''providerId'', PStr ''rokuavod'')]"

text \<open>The token is sent only when the root page gave one and it is not empty.\<close>

definition playback_headers :: "string option \<Rightarrow> (string \<times> string) list" where
  "playback_headers csrf_token =
     (''content-type'', ''application/json'') #
     (case csrf_token of
        Some t \<Rightarrow> (if t \<noteq> [] then [(''csrf-token'', t)] else [])
      | None \<Rightarrow> [])"

definition origin_prefix :: string where
  "origin_prefix = ''https://osm.sr.roku.com/''"

definition edge_prefix :: string where
  "edge_prefix = ''https://aka-live491.delivery.roku.com/''"

definition origin_suffix :: string where
  "origin_suffix = ''/live.m3u8''"

definition edge_suffix :: string where
  "edge_suffix = ''/t2-origin/out/v1/live.m3u8''"

text \<open>Lines 88 to 91: the rewrite of the negotiated URL.\<close>

definition transform_url :: "pyval \<Rightarrow> py_error + pyval" where
  "transform_url stream_url =
     (case py_in ''osm.sr.roku.com'' stream_url of
        Inl e \<Rightarrow> Inl e
      | Inr False \<Rightarrow> Inr stream_url
      | Inr True \<Rightarrow>
          (case py_replace stream_url origin_prefix edge_prefix of
             Inl e \<Rightarrow> Inl e
           | Inr u \<Rightarrow> py_replace u origin_suffix edge_suffix))"

definition fallback_url :: "string \<Rightarrow> string" where
  "fallback_url channel_id = edge_prefix @ channel_id @ edge_suffix"

text \<open>
  The body of the \<open>try\<close>: \<open>Inl e\<close> when it raises \<open>e\<close>, \<open>Inr (Some v)\<close> when it returns \<open>v\<close>,
  \<open>Inr None\<close> when the status is not 200 and control leaves the \<open>try\<close> without a return.
  (The \<open>content_url\<close> of line 53 is built and never used.)
\<close>

definition resolve_attempt :: "session \<Rightarrow> string \<Rightarrow> py_error + pyval option" where
  "resolve_attempt s channel_id =
     (case session_get s root_url of
        Inl e \<Rightarrow> Inl e
      | Inr csrf_response \<Rightarrow>
          (let csrf_token = header_lookup (headers csrf_response) ''csrf-token''
           in case session_post s playback_url (playback_data channel_id)
                     (playback_headers csrf_token) of
                Inl e \<Rightarrow> Inl e
              | Inr playback_response \<Rightarrow>
                  if status_code playback_response = 200 then
                    (case body_json playback_response of
                       Inl e \<Rightarrow> Inl e
                     | Inr playback_info \<Rightarrow>
                         (case py_get playback_info ''url'' (PStr []) of
                            Inl e \<Rightarrow> Inl e
                          | Inr stream_url \<Rightarrow>
                              (case transform_url stream_url of
                                 Inl e \<Rightarrow> Inl e
                               | Inr u \<Rightarrow> Inr (Some u))))
                  else Inr None))"

text \<open>The whole function: the value returned and the records logged.\<close>

definition get_roku_stream_url :: "session \<Rightarrow> string \<Rightarrow> pyval \<times> log_record list" where
  "get_roku_stream_url s channel_id =
     (case resolve_attempt s channel_id of
        Inr (Some v) \<Rightarrow> (v, [])
      | Inr None \<Rightarrow> (PStr (fallback_url channel_id), [])
      | Inl e \<Rightarrow>
          (PStr (fallback_url channel_id),
           [(ERROR, ''Failed to get stream URL for channel '' @ channel_id, Some e)]))"

section \<open>Record formatter\<close>

text \<open>Line 7: the channel number is kept only when it is not \<open>None\<close> and \<open>str\<close> of it is all digits.\<close>

definition chno_str :: "pyval \<Rightarrow> string" where
  "chno_str tvg_chno =
     (if tvg_chno \<noteq> PNone \<and> isdigit (py_str tvg_chno) then py_str tvg_chno else [])"

text \<open>Lines 10 to 12: \<open>x.replace(old, new) if x else ""\<close>.\<close>

definition replace_if_set :: "pyval \<Rightarrow> string \<Rightarrow> string \<Rightarrow> py_error + string" where
  "replace_if_set x old new =
     (if truthy x
      then (case x of PStr s \<Rightarrow> Inr (str_replace old new s) | _ \<Rightarrow> Inl AttributeError)
      else Inr [])"

text \<open>Lines 14 to 21: the f-string.\<close>

definition extinf_line ::
  "string \<Rightarrow> string \<Rightarrow> string \<Rightarrow> string \<Rightarrow> string \<Rightarrow> string \<Rightarrow> string \<Rightarrow> string" where
  \<open>extinf_line channel_id tvg_id chno tvg_name tvg_logo group_title display_name =
     ''#EXTINF:-1 '' @
     ''channel-id="'' @ channel_id @ ''" '' @
     ''tvg-id="'' @ tvg_id @ ''" '' @
     ''tvg-chno="'' @ chno @ ''" '' @
     ''tvg-name="'' @ tvg_name @ ''" '' @
     ''tvg-logo="'' @ tvg_logo @ ''" '' @
     ''group-title="'' @ group_title @ ''",'' @
     display_name @ [CHR 0x0A]\<close>

definition format_extinf ::
  "string \<Rightarrow> string \<Rightarrow> pyval \<Rightarrow> pyval \<Rightarrow> pyval \<Rightarrow> pyval \<Rightarrow> pyval \<Rightarrow> py_error + string" where
  "format_extinf channel_id tvg_id tvg_chno tvg_name tvg_logo group_title display_name =
     (case replace_if_set tvg_name [CHR 0x22] [CHR 0x27] of
        Inl e \<Rightarrow> Inl e
      | Inr sanitized_tvg_name \<Rightarrow>
     (case replace_if_set group_title [CHR 0x22] [CHR 0x27] of
        Inl e \<Rightarrow> Inl e
      | Inr sanitized_group_title \<Rightarrow>
     (case replace_if_set display_name '','' [] of
        Inl e \<Rightarrow> Inl e
      | Inr sanitized_display_name \<Rightarrow>
          Inr (extinf_line channel_id tvg_id (chno_str tvg_chno) sanitized_tvg_name
                 (py_str tvg_logo) sanitized_group_title sanitized_display_name))))"

section \<open>Catalog source and sink\<close>

text \<open>
  What the process can reach: \<open>requests.get\<close>, the session that \<open>requests.Session()\<close> gives
  while a given channel is resolved, and writing a file (\<open>None\<close> when it succeeds).
\<close>

record world =
  requests_get :: "string \<Rightarrow> (string \<times> string) list \<Rightarrow> py_error + http_response"
  new_session :: "string \<Rightarrow> session"
  file_write :: "string \<Rightarrow> string \<Rightarrow> py_error option"

definition fetch_url :: "world \<Rightarrow> string \<Rightarrow> bool \<Rightarrow> bool \<Rightarrow> pyval \<times> log_record list" where
  "fetch_url w url is_json is_gzipped =
     (let hdrs = (if is_gzipped then [(''Accept-Encoding'', ''gzip'')] else []);
          failed = (\<lambda>e. (PNone, [(ERROR, ''Failed to fetch '' @ url, Some e)]))
      in case requests_get w url hdrs of
           Inl e \<Rightarrow> failed e
         | Inr response \<Rightarrow>
             if 400 \<le> status_code response \<and> status_code response < 600 then failed HTTPError
             else if is_json then
               (case body_json response of Inl e \<Rightarrow> failed e | Inr v \<Rightarrow> (v, []))
             else (PStr (body_text response), []))"

text \<open>The files written (name and content) and the records logged.\<close>

definition write_m3u_file ::
  "world \<Rightarrow> string \<Rightarrow> string \<Rightarrow> (string \<times> string) list \<times> log_record list" where
  "write_m3u_file w filename content =
     (case file_write w filename content of
        None \<Rightarrow> ([(filename, content)], [(INFO, ''Successfully wrote '' @ filename, None)])
      | Some e \<Rightarrow> ([], [(ERROR, ''Failed to write '' @ filename, Some e)]))"

section \<open>Playlist builder\<close>

subsection \<open>More operations on decoded values\<close>

definition py_keys :: "pyval \<Rightarrow> py_error + string list" where
  "py_keys obj = (case obj of PDict kvs \<Rightarrow> Inr (dict_keys kvs) | _ \<Rightarrow> Inl AttributeError)"

text \<open>\<open>obj[k]\<close> with a string \<open>k\<close>.\<close>

definition py_getitem :: "pyval \<Rightarrow> string \<Rightarrow> py_error + pyval" where
  "py_getitem obj k =
     (case obj of
        PDict kvs \<Rightarrow> (case dict_lookup kvs k of Some v \<Rightarrow> Inr v | None \<Rightarrow> Inl KeyError)
      | _ \<Rightarrow> Inl TypeError)"

definition is_space_char :: "char \<Rightarrow> bool" where
  "is_space_char c =
     (c \<in> set [CHR 0x09, CHR 0x0A, CHR 0x0B, CHR 0x0C, CHR 0x0D,
               CHR 0x1C, CHR 0x1D, CHR 0x1E, CHR 0x1F, CHR 0x20])"

definition strip :: "string \<Rightarrow> string" where
  "strip s = rev (dropWhile is_space_char (rev (dropWhile is_space_char s)))"

text \<open>
  The digits of an integer literal: single underscores are allowed between digits.
  \<open>prev\<close> says that the character before was a digit.
\<close>

fun int_digits :: "bool \<Rightarrow> nat \<Rightarrow> string \<Rightarrow> nat option" where
  "int_digits prev acc [] = (if prev then Some acc else None)"
| "int_digits prev acc (c # cs) =
     (if is_digit_char c then int_digits True (10 * acc + (of_char c - 48)) cs
      else if c = CHR ''_'' \<and> prev then int_digits False acc cs
      else None)"

definition int_of_str :: "string \<Rightarrow> int option" where
  "int_of_str s =
     (case strip s of
        [] \<Rightarrow> None
      | c # cs \<Rightarrow>
          if c = CHR ''-'' then map_option (\<lambda>n. - int n) (int_digits False 0 cs)
          else if c = CHR ''+'' then map_option int (int_digits False 0 cs)
          else map_option int (int_digits False 0 (c # cs)))"

text \<open>\<open>int(x)\<close> (without the limit on the number of digits of recent interpreters).\<close>

definition py_int :: "pyval \<Rightarrow> py_error + int" where
  "py_int v =
     (case v of
        PInt n \<Rightarrow> Inr n
      | PBool b \<Rightarrow> Inr (if b then 1 else 0)
      | PStr s \<Rightarrow> (case int_of_str s of Some n \<Rightarrow> Inr n | None \<Rightarrow> Inl ValueError)
      | _ \<Rightarrow> Inl TypeError)"

definition py_lower :: "pyval \<Rightarrow> py_error + string" where
  "py_lower v = (case v of PStr s \<Rightarrow> Inr (str_lower s) | _ \<Rightarrow> Inl AttributeError)"

text \<open>\<open>x + '\n'\<close>-style concatenation with a str on the right.\<close>

definition py_add_str :: "pyval \<Rightarrow> string \<Rightarrow> py_error + string" where
  "py_add_str v t = (case v of PStr s \<Rightarrow> Inr (s @ t) | _ \<Rightarrow> Inl TypeError)"

text \<open>Applying a function that may raise to each element in turn; the first error wins.\<close>

fun map_err :: "('a \<Rightarrow> 'e + 'b) \<Rightarrow> 'a list \<Rightarrow> 'e + 'b list" where
  "map_err f [] = Inr []"
| "map_err f (x # xs) =
     (case f x of
        Inl e \<Rightarrow> Inl e
      | Inr y \<Rightarrow> (case map_err f xs of Inl e \<Rightarrow> Inl e | Inr ys \<Rightarrow> Inr (y # ys)))"

text \<open>
  \<open>sorted(xs, key=key)\<close>: the keys are computed first, one per element, then the elements
  are put in ascending key order by a stable sort.
\<close>

definition py_sorted :: "('a \<Rightarrow> py_error + 'k::linorder) \<Rightarrow> 'a list \<Rightarrow> py_error + 'a list" where
  "py_sorted key xs =
     (case map_err key xs of
        Inl e \<Rightarrow> Inl e
      | Inr ks \<Rightarrow> Inr (map snd (sort_key fst (zip ks xs))))"

subsection \<open>Ordering (lines 116 to 125)\<close>

definition chno_key :: "pyval \<Rightarrow> string \<Rightarrow> py_error + int" where
  "chno_key channels_to_process k =
     (case py_getitem channels_to_process k of
        Inl e \<Rightarrow> Inl e
      | Inr channel \<Rightarrow>
          (case py_get channel ''chno'' (PInt 99999) of Inl e \<Rightarrow> Inl e | Inr v \<Rightarrow> py_int v))"

definition name_key :: "pyval \<Rightarrow> string \<Rightarrow> py_error + string" where
  "name_key channels_to_process k =
     (case py_getitem channels_to_process k of
        Inl e \<Rightarrow> Inl e
      | Inr channel \<Rightarrow>
          (case py_get channel ''name'' (PStr []) of Inl e \<Rightarrow> Inl e | Inr v \<Rightarrow> py_lower v))"

text \<open>The body of the \<open>try\<close>.\<close>

definition sort_attempt :: "pyval \<Rightarrow> pyval \<Rightarrow> py_error + string list" where
  "sort_attempt sort_mode channels_to_process =
     (if sort_mode = PStr ''chno'' then
        (case py_keys channels_to_process of
           Inl e \<Rightarrow> Inl e
         | Inr ks \<Rightarrow> py_sorted (chno_key channels_to_process) ks)
      else
        (case py_keys channels_to_process of
           Inl e \<Rightarrow> Inl e
         | Inr ks \<Rightarrow> py_sorted (name_key channels_to_process) ks))"

text \<open>The \<open>try\<close> with its handler; the handler's own \<open>keys()\<close> call is not protected.\<close>

definition sorted_channel_ids ::
  "pyval \<Rightarrow> pyval \<Rightarrow> (py_error + string list) \<times> log_record list" where
  "sorted_channel_ids sort_mode channels_to_process =
     (case sort_attempt sort_mode channels_to_process of
        Inr ids \<Rightarrow> (Inr ids, [])
      | Inl e \<Rightarrow>
          (py_keys channels_to_process,
           [(WARNING, ''Sorting failed for Roku, using default order.'', Some e)]))"

subsection \<open>Entries (lines 128 to 141)\<close>

text \<open>\<open>groups_list[0] if groups_list else 'Uncategorized'\<close>.\<close>

definition first_group :: "pyval \<Rightarrow> py_error + pyval" where
  "first_group groups_list =
     (if truthy groups_list then
        (case groups_list of
           PList xs \<Rightarrow> (case xs of x # _ \<Rightarrow> Inr x | [] \<Rightarrow> Inl IndexError)
         | PStr s \<Rightarrow> (case s of c # _ \<Rightarrow> Inr (PStr [c]) | [] \<Rightarrow> Inl IndexError)
         | PDict _ \<Rightarrow> Inl KeyError
         | _ \<Rightarrow> Inl TypeError)
      else Inr (PStr ''Uncategorized''))"

text \<open>One pass of the loop body: the two lines appended, or the exception raised.\<close>

definition channel_entry ::
  "world \<Rightarrow> pyval \<Rightarrow> string \<Rightarrow> (py_error + string list) \<times> log_record list" where
  "channel_entry w channels_to_process channel_id =
     (case py_getitem channels_to_process channel_id of
        Inl e \<Rightarrow> (Inl e, [])
      | Inr channel \<Rightarrow>
     (case py_get channel ''chno'' PNone of
        Inl e \<Rightarrow> (Inl e, [])
      | Inr chno \<Rightarrow>
     (case py_get channel ''name'' (PStr ''Unknown Channel'') of
        Inl e \<Rightarrow> (Inl e, [])
      | Inr name \<Rightarrow>
     (case py_get channel ''logo'' (PStr []) of
        Inl e \<Rightarrow> (Inl e, [])
      | Inr logo \<Rightarrow>
     (case py_get channel ''groups'' (PList []) of
        Inl e \<Rightarrow> (Inl e, [])
      | Inr groups_list \<Rightarrow>
     (case first_group groups_list of
        Inl e \<Rightarrow> (Inl e, [])
      | Inr group_title \<Rightarrow>
     (case format_extinf channel_id channel_id chno name logo group_title name of
        Inl e \<Rightarrow> (Inl e, [])
      | Inr extinf \<Rightarrow>
          (case get_roku_stream_url (new_session w channel_id) channel_id of
             (stream_url, lg) \<Rightarrow>
               (case py_add_str stream_url [CHR 0x0A] of
                  Inl e \<Rightarrow> (Inl e, lg)
                | Inr url_line \<Rightarrow> (Inr [extinf, url_line], lg))))))))))"

fun build_entries ::
  "world \<Rightarrow> pyval \<Rightarrow> string list \<Rightarrow> string list \<Rightarrow> (py_error + string list) \<times> log_record list"
where
  "build_entries w channels_to_process [] output_lines = (Inr output_lines, [])"
| "build_entries w channels_to_process (channel_id # rest) output_lines =
     (case channel_entry w channels_to_process channel_id of
        (Inl e, lg) \<Rightarrow> (Inl e, lg)
      | (Inr ls, lg) \<Rightarrow>
          (case build_entries w channels_to_process rest (output_lines @ ls) of
             (r, lg') \<Rightarrow> (r, lg @ lg')))"

subsection \<open>The whole build\<close>

definition ROKU_URL :: string where
  "ROKU_URL = ''https://i.mjh.nz/Roku/.channels.json''"

definition EPG_URL :: string where
  "EPG_URL = ''https://github.com/matthuisman/i.mjh.nz/raw/master/Roku/all.xml.gz''"

definition header_line :: string where
  \<open>header_line = ''#EXTM3U url-tvg="'' @ EPG_URL @ ''"'' @ [CHR 0x0A]\<close>

text \<open>Line 108: \<open>not data or 'channels' not in data\<close>.\<close>

definition catalog_missing :: "pyval \<Rightarrow> py_error + bool" where
  "catalog_missing data =
     (if \<not> truthy data then Inr True
      else (case py_in ''channels'' data of Inl e \<Rightarrow> Inl e | Inr b \<Rightarrow> Inr (\<not> b)))"

text \<open>
  What a call leaves behind: the exception that reached the caller, if any, the records
  logged and the files written.
\<close>

record run_result =
  raised :: "py_error option"
  logged :: "log_record list"
  written :: "(string \<times> string) list"

text \<open>
  The argument is \<open>None\<close> when the caller leaves \<open>sort\<close> out; the parameter is called
  \<open>sort_mode\<close> here.
\<close>

definition generate_roku_playlist :: "world \<Rightarrow> pyval option \<Rightarrow> run_result" where
  "generate_roku_playlist w sort_arg =
     (let sort_mode = (case sort_arg of None \<Rightarrow> PStr ''chno'' | Some v \<Rightarrow> v);
          log0 = [(INFO, ''--- Generating Roku playlist ---'', None)]
      in case fetch_url w ROKU_URL True True of
        (data, log1) \<Rightarrow>
     (case catalog_missing data of
        Inl e \<Rightarrow> \<lparr>raised = Some e, logged = log0 @ log1, written = []\<rparr>
      | Inr True \<Rightarrow>
          \<lparr>raised = None,
           logged = log0 @ log1 @ [(ERROR, ''Failed to fetch or parse Roku data.'', None)],
           written = []\<rparr>
      | Inr False \<Rightarrow>
     (case py_get data ''channels'' (PDict []) of
        Inl e \<Rightarrow> \<lparr>raised = Some e, logged = log0 @ log1, written = []\<rparr>
      | Inr channels_to_process \<Rightarrow>
     (case sorted_channel_ids sort_mode channels_to_process of
        (Inl e, log2) \<Rightarrow> \<lparr>raised = Some e, logged = log0 @ log1 @ log2, written = []\<rparr>
      | (Inr ids, log2) \<Rightarrow>
     (case build_entries w channels_to_process ids [header_line] of
        (Inl e, log3) \<Rightarrow>
          \<lparr>raised = Some e, logged = log0 @ log1 @ log2 @ log3, written = []\<rparr>
      | (Inr output_lines, log3) \<Rightarrow>
          (case write_m3u_file w ''roku_all.m3u'' (concat output_lines) of
             (files, log4) \<Rightarrow>
               \<lparr>raised = None, logged = log0 @ log1 @ log2 @ log3 @ log4,
                written = files\<rparr>))))))"

section \<open>Notions used to state the properties\<close>

text \<open>
  Following the spec's words (the returned URL's host): the host of a URL is the text
  between \<open>://\<close> and the next slash.
\<close>

fun after_scheme :: "string \<Rightarrow> string" where
  "after_scheme (a # b # c # rest) =
     (if [a, b, c] = ''://'' then rest else after_scheme (b # c # rest))"
| "after_scheme _ = []"

definition spec_url_host :: "string \<Rightarrow> string" where
  "spec_url_host u = takeWhile (\<lambda>c. c \<noteq> CHR ''/'') (after_scheme u)"

text \<open>
  A value on which \<open>x.replace(old, new) if x else ""\<close> does not raise: a str, or a value
  that tests false.
\<close>

definition str_or_falsy :: "pyval \<Rightarrow> bool" where
  "str_or_falsy v = (case v of PStr _ \<Rightarrow> True | _ \<Rightarrow> \<not> truthy v)"


text \<open>
  The strings that one pass of the loop appends for a channel (none when the pass raises),
  and the number of newline characters of a text, which is its number of lines when every
  line is terminated.
\<close>

definition entry_lines :: "world \<Rightarrow> pyval \<Rightarrow> string \<Rightarrow> string list" where
  "entry_lines w channels_to_process k =
     (case fst (channel_entry w channels_to_process k) of Inr ls \<Rightarrow> ls | Inl e \<Rightarrow> [])"

definition line_count :: "string \<Rightarrow> nat" where
  "line_count s = count_list s (CHR 0x0A)"

text \<open>
  A channel entry on which the loop body does not raise before the resolver is called: a
  record whose name (or the placeholder) is a string or tests false, and whose first group
  (or the default label) can be read and is a string or tests false.
\<close>

definition well_shaped_channel :: "pyval \<Rightarrow> bool" where
  "well_shaped_channel c =
     (case c of
        PDict ch \<Rightarrow>
          str_or_falsy (case dict_lookup ch ''name'' of Some v \<Rightarrow> v
                        | None \<Rightarrow> PStr ''Unknown Channel'')
          \<and> (case first_group (case dict_lookup ch ''groups'' of Some v \<Rightarrow> v | None \<Rightarrow> PList [])
               of Inr g \<Rightarrow> str_or_falsy g | Inl e \<Rightarrow> False)
      | _ \<Rightarrow> False)"

section \<open>Example inputs\<close>

text \<open>
  A response with a given status and JSON body, a session on which every request raises,
  and a session whose root page answers and whose playback request gets a given reply.
\<close>

definition json_response :: "int \<Rightarrow> py_error + pyval \<Rightarrow> http_response" where
  "json_response st v = \<lparr>status_code = st, headers = [], body_json = v, body_text = []\<rparr>"
definition failing_session :: session where
  "failing_session = \<lparr>session_get = (\<lambda>_. Inl RequestException), session_post = (\<lambda>_ _ _. Inl RequestException)\<rparr>"
definition answering_session :: "int \<Rightarrow> py_error + pyval \<Rightarrow> session" where
  "answering_session st v = \<lparr>session_get = (\<lambda>_. Inr (json_response 200 (Inl JSONDecodeError))), session_post = (\<lambda>_ _ _. Inr (json_response st v))\<rparr>"

text \<open>
  A world that serves a given catalog document, where the provider is unreachable (every
  resolution falls back) and the file can be written; and the catalog of three channels of
  which the second has no number.
\<close>

definition offline_world :: "pyval \<Rightarrow> world" where
  "offline_world data =
     \<lparr>requests_get = (\<lambda>_ _. Inr (json_response 200 (Inr data))),
      new_session = (\<lambda>_. failing_session),
      file_write = (\<lambda>_ _. None)\<rparr>"


text \<open>
  The offline world serving a catalog whose \<open>channels\<close> are the given items, and some
  catalogs: two names in different case; two channels whose numbers and names order them
  differently; a channel with complete metadata and one with a name only; a name holding a
  newline; a name that is a number; a number that is \<open>None\<close>.
\<close>

definition served :: "(string \<times> pyval) list \<Rightarrow> world" where
  "served kvs = offline_world (PDict [(''channels'', PDict kvs)])"







section \<open>Facts about the string operations\<close>

lemma str_replace_Nil [simp]: "old \<noteq> [] \<Longrightarrow> str_replace old new [] = []"
  by (simp add: str_replace.simps)

lemma str_replace_Cons:
  "old \<noteq> [] \<Longrightarrow> str_replace old new (c # cs) =
     (if take (length old) (c # cs) = old then new @ str_replace old new (drop (length old) (c # cs))
      else c # str_replace old new cs)"
  by (subst str_replace.simps) simp

lemma str_replace_skip:
  "c \<notin> set x \<Longrightarrow> str_replace (c # ps) new (x @ s) = x @ str_replace (c # ps) new s"
  by (induction x) (auto simp: str_replace_Cons)

lemma str_replace_prefix:
  "old \<noteq> [] \<Longrightarrow> str_replace old new (old @ s) = new @ str_replace old new s"
  by (subst str_replace.simps) simp

lemma str_contains_decomp: "str_contains sub s \<Longrightarrow> \<exists>x y. s = x @ sub @ y"
proof (induction s)
  case Nil
  then show ?case by simp
next
  case (Cons c cs)
  show ?case
  proof (cases "take (length sub) (c # cs) = sub")
    case True
    then have "c # cs = [] @ sub @ drop (length sub) (c # cs)"
      by (metis append_Nil append_take_drop_id)
    then show ?thesis by blast
  next
    case False
    with Cons.prems have "str_contains sub cs" by simp
    then obtain x y where "cs = x @ sub @ y" using Cons.IH by blast
    then have "c # cs = (c # x) @ sub @ y" by simp
    then show ?thesis by blast
  qed
qed

lemma str_contains_take: "take (length sub) s = sub \<Longrightarrow> str_contains sub s"
  by (cases s) auto

lemma str_contains_append: "str_contains sub (x @ sub @ y)"
  by (induction x) (simp_all add: str_contains_take)

lemma str_replace_absent:
  "old \<noteq> [] \<Longrightarrow> \<not> str_contains old s \<Longrightarrow> str_replace old new s = s"
  by (induction s) (auto simp: str_replace_Cons)

lemma origin_prefix_absent:
  assumes "CHR ''/'' \<notin> set seg"
  shows "\<not> str_contains origin_prefix (seg @ origin_suffix)"
proof
  assume "str_contains origin_prefix (seg @ origin_suffix)"
  then obtain x y where eq: "seg @ origin_suffix = x @ origin_prefix @ y"
    using str_contains_decomp by blast
  have "count_list (seg @ origin_suffix) CHR ''/'' = 1"
    using assms by (simp add: origin_suffix_def)
  moreover have "count_list (x @ origin_prefix @ y) CHR ''/'' \<ge> 3"
    by (simp add: origin_prefix_def)
  ultimately show False using eq by simp
qed

lemma take9_seg:
  assumes "CHR ''/'' \<notin> set seg" "take 9 seg \<noteq> ''live.m3u8''"
  shows "take 9 (seg @ origin_suffix) \<noteq> ''live.m3u8''"
proof (cases "9 \<le> length seg")
  case True
  then show ?thesis using assms(2) by simp
next
  case False
  then obtain m where m: "9 - length seg = Suc m"
    by (metis Suc_diff_Suc not_le)
  have slash: "CHR ''/'' \<in> set (take 9 (seg @ origin_suffix))"
    by (simp add: origin_suffix_def m)
  show ?thesis
  proof
    assume "take 9 (seg @ origin_suffix) = ''live.m3u8''"
    with slash have "CHR ''/'' \<in> set ''live.m3u8''" by (simp only:)
    then show False by simp
  qed
qed

lemma str_replace_step:
  "old \<noteq> [] \<Longrightarrow> take (length old) (c # cs) \<noteq> old \<Longrightarrow>
   str_replace old new (c # cs) = c # str_replace old new cs"
  by (simp add: str_replace_Cons)

lemma edge_host_kept:
  "str_replace origin_suffix edge_suffix (''https://aka-live491.delivery.roku.com'' @ r) =
   ''https://aka-live491.delivery.roku.com'' @ str_replace origin_suffix edge_suffix r"
  by (simp add: str_replace_Cons origin_suffix_def)

lemma edge_rewrite:
  assumes "CHR ''/'' \<notin> set seg" "take 9 seg \<noteq> ''live.m3u8''"
  shows "str_replace origin_suffix edge_suffix (edge_prefix @ seg @ origin_suffix) =
         edge_prefix @ seg @ edge_suffix"
proof -
  have a: "str_replace origin_suffix edge_suffix (seg @ origin_suffix) = seg @ edge_suffix"
    using assms(1) str_replace_skip[of "CHR ''/''" seg "''live.m3u8''" edge_suffix origin_suffix]
      str_replace_prefix[of origin_suffix edge_suffix "[]"]
    by (simp add: origin_suffix_def)
  define t9 where "t9 = take 9 (seg @ origin_suffix)"
  have "take (length origin_suffix) (CHR ''/'' # seg @ origin_suffix) = CHR ''/'' # t9"
    unfolding t9_def by (simp add: origin_suffix_def eval_nat_numeral)
  moreover have "t9 \<noteq> ''live.m3u8''"
    unfolding t9_def by (rule take9_seg[OF assms])
  ultimately have b:
    "take (length origin_suffix) (CHR ''/'' # seg @ origin_suffix) \<noteq> origin_suffix"
    by (simp add: origin_suffix_def)
  have c: "origin_suffix \<noteq> []" by (simp add: origin_suffix_def)
  have "edge_prefix @ seg @ origin_suffix =
        ''https://aka-live491.delivery.roku.com'' @ (CHR ''/'' # seg @ origin_suffix)"
    by (simp add: edge_prefix_def)
  then show ?thesis
    using edge_host_kept[of "CHR ''/'' # seg @ origin_suffix"] str_replace_step[OF c b, of edge_suffix] a
    by (simp add: edge_prefix_def)
qed

lemma origin_rewrite:
  assumes "CHR ''/'' \<notin> set seg"
  shows "str_replace origin_prefix edge_prefix (origin_prefix @ seg @ origin_suffix) =
         edge_prefix @ seg @ origin_suffix"
proof -
  have "origin_prefix \<noteq> []" by (simp add: origin_prefix_def)
  then show ?thesis
    using str_replace_prefix[of origin_prefix edge_prefix "seg @ origin_suffix"]
      str_replace_absent[OF _ origin_prefix_absent[OF assms], of edge_prefix]
    by simp
qed

section \<open>Properties of the resolver\<close>

lemma fallback_url_nonempty: "fallback_url cid \<noteq> []"
  by (simp add: fallback_url_def edge_prefix_def)

text \<open>
  Claim C1. Whatever the channel identifier, when resolution fails at some step -- the
  request to the root page raises, the playback request raises, its status is not 200, its
  body does not decode, or reading the \<open>url\<close> field of the decoded body or rewriting it
  raises -- \<open>get_roku_stream_url\<close> returns the fallback template with the identifier
  substituted in. The function returns a value in every case (no exception leaves it), and
  the value returned on failure is never the empty string.
\<close>

theorem get_roku_stream_url_fallback:
  assumes "(\<exists>e. session_get s root_url = Inl e)
     \<or> (\<exists>r. session_get s root_url = Inr r \<and>
           (let reply = session_post s playback_url (playback_data cid)
                          (playback_headers (header_lookup (headers r) ''csrf-token''))
            in (\<exists>e. reply = Inl e)
             \<or> (\<exists>p. reply = Inr p \<and>
                   (status_code p \<noteq> 200
                    \<or> (\<exists>e. body_json p = Inl e)
                    \<or> (\<exists>info. body_json p = Inr info \<and>
                          ((\<exists>e. py_get info ''url'' (PStr []) = Inl e)
                           \<or> (\<exists>u e. py_get info ''url'' (PStr []) = Inr u \<and>
                                  transform_url u = Inl e)))))))"
  shows "fst (get_roku_stream_url s cid) =
           PStr (''https://aka-live491.delivery.roku.com/'' @ cid @ ''/t2-origin/out/v1/live.m3u8'')
         \<and> fst (get_roku_stream_url s cid) \<noteq> PStr []"
proof -
  have "resolve_attempt s cid = Inr None \<or> (\<exists>e. resolve_attempt s cid = Inl e)"
    using assms unfolding resolve_attempt_def Let_def
    by (auto split: sum.splits)
  then have "fst (get_roku_stream_url s cid) = PStr (fallback_url cid)"
    unfolding get_roku_stream_url_def by auto
  then show ?thesis
    using fallback_url_nonempty[of cid]
    by (simp add: fallback_url_def edge_prefix_def edge_suffix_def)
qed

theorem get_roku_stream_url_fallback_witness:
  "fst (get_roku_stream_url failing_session ''abc'') =
     PStr ''https://aka-live491.delivery.roku.com/abc/t2-origin/out/v1/live.m3u8''
   \<and> fst (get_roku_stream_url (answering_session 503 (Inr (PDict []))) ''abc'') =
     PStr ''https://aka-live491.delivery.roku.com/abc/t2-origin/out/v1/live.m3u8''
   \<and> fst (get_roku_stream_url (answering_session 200 (Inl JSONDecodeError)) ''abc'') =
     PStr ''https://aka-live491.delivery.roku.com/abc/t2-origin/out/v1/live.m3u8''
   \<and> fst (get_roku_stream_url (answering_session 200 (Inr (PDict [(''url'', PNone)]))) ''abc'') =
     PStr ''https://aka-live491.delivery.roku.com/abc/t2-origin/out/v1/live.m3u8''"
proof -
  let ?fb = "PStr (''https://aka-live491.delivery.roku.com/'' @ ''abc'' @ ''/t2-origin/out/v1/live.m3u8'')"
  have 1: "fst (get_roku_stream_url failing_session ''abc'') = ?fb"
    by (rule get_roku_stream_url_fallback[THEN conjunct1]) (simp add: failing_session_def)
  have 2: "fst (get_roku_stream_url (answering_session 503 (Inr (PDict []))) ''abc'') = ?fb"
    by (rule get_roku_stream_url_fallback[THEN conjunct1])
      (simp add: answering_session_def json_response_def)
  have 3: "fst (get_roku_stream_url (answering_session 200 (Inl JSONDecodeError)) ''abc'') = ?fb"
    by (rule get_roku_stream_url_fallback[THEN conjunct1])
      (simp add: answering_session_def json_response_def)
  have 4: "fst (get_roku_stream_url (answering_session 200 (Inr (PDict [(''url'', PNone)])))
             ''abc'') = ?fb"
    by (rule get_roku_stream_url_fallback[THEN conjunct1])
      (simp add: answering_session_def json_response_def py_get_def dict_lookup_def
        transform_url_def py_in_def)
  show ?thesis using 1 2 3 4 by simp
qed

text \<open>
  Claim C2, as stated, fails: the rewrite is guarded by a substring test, so a URL whose
  host is another domain but which mentions \<open>osm.sr.roku.com\<close> elsewhere is rewritten.
\<close>

theorem rewrite_on_other_host_counterexample:
  "spec_url_host ''https://cdn.example.com/osm.sr.roku.com/live.m3u8'' \<noteq> ''osm.sr.roku.com'' \<and>
   fst (get_roku_stream_url
          (answering_session 200
             (Inr (PDict [(''url'', PStr ''https://cdn.example.com/osm.sr.roku.com/live.m3u8'')])))
          ''abc'')
     = PStr ''https://cdn.example.com/osm.sr.roku.com/t2-origin/out/v1/live.m3u8''"
  by (simp add: spec_url_host_def get_roku_stream_url_def resolve_attempt_def
      answering_session_def json_response_def py_get_def dict_lookup_def transform_url_def
      py_in_def py_replace_def str_replace_Cons origin_prefix_def edge_prefix_def
      origin_suffix_def edge_suffix_def)

lemma resolve_attempt_ok:
  assumes "session_get s root_url = Inr r"
    and "session_post s playback_url (playback_data cid)
           (playback_headers (header_lookup (headers r) ''csrf-token'')) = Inr p"
    and "status_code p = 200"
    and "body_json p = Inr (PDict kvs)"
    and "dict_lookup kvs ''url'' = Some (PStr u)"
  shows "get_roku_stream_url s cid =
           (PStr (if str_contains ''osm.sr.roku.com'' u
                  then str_replace origin_suffix edge_suffix (str_replace origin_prefix edge_prefix u)
                  else u), [])"
  using assms
  by (simp add: get_roku_stream_url_def resolve_attempt_def py_get_def transform_url_def
      py_in_def py_replace_def)

text \<open>
  Claim C2, amended. For a URL returned by a successful negotiation, the rewrite is applied
  if and only if the URL contains the text \<open>osm.sr.roku.com\<close> anywhere; a URL without it is
  returned unchanged. When applied, every occurrence of \<open>https://osm.sr.roku.com/\<close> is
  replaced by \<open>https://aka-live491.delivery.roku.com/\<close> and then every occurrence of
  \<open>/live.m3u8\<close> by \<open>/t2-origin/out/v1/live.m3u8\<close>. In particular an origin URL
  \<open>https://osm.sr.roku.com/SEG/live.m3u8\<close>, with \<open>SEG\<close> free of slashes and not starting
  with \<open>live.m3u8\<close>, becomes the edge URL \<open>https://aka-live491.delivery.roku.com/SEG/t2-origin/out/v1/live.m3u8\<close>.
\<close>

theorem stream_url_rewrite:
  assumes "session_get s root_url = Inr r"
    and "session_post s playback_url (playback_data cid)
           (playback_headers (header_lookup (headers r) ''csrf-token'')) = Inr p"
    and "status_code p = 200"
    and "body_json p = Inr (PDict kvs)"
    and "dict_lookup kvs ''url'' = Some (PStr u)"
  shows "(\<not> str_contains ''osm.sr.roku.com'' u \<longrightarrow> get_roku_stream_url s cid = (PStr u, []))
    \<and> (str_contains ''osm.sr.roku.com'' u \<longrightarrow>
         get_roku_stream_url s cid =
           (PStr (str_replace ''/live.m3u8'' ''/t2-origin/out/v1/live.m3u8''
                   (str_replace ''https://osm.sr.roku.com/''
                      ''https://aka-live491.delivery.roku.com/'' u)), []))
    \<and> (\<forall>seg. u = ''https://osm.sr.roku.com/'' @ seg @ ''/live.m3u8'' \<and> CHR ''/'' \<notin> set seg
            \<and> take 9 seg \<noteq> ''live.m3u8'' \<longrightarrow>
         get_roku_stream_url s cid =
           (PStr (''https://aka-live491.delivery.roku.com/'' @ seg @ ''/t2-origin/out/v1/live.m3u8''), []))"
proof -
  note r = resolve_attempt_ok[OF assms]
  have a: "\<not> str_contains ''osm.sr.roku.com'' u \<longrightarrow> get_roku_stream_url s cid = (PStr u, [])"
    using r by simp
  have b: "str_contains ''osm.sr.roku.com'' u \<longrightarrow>
         get_roku_stream_url s cid =
           (PStr (str_replace ''/live.m3u8'' ''/t2-origin/out/v1/live.m3u8''
                   (str_replace ''https://osm.sr.roku.com/''
                      ''https://aka-live491.delivery.roku.com/'' u)), [])"
    using r by (simp add: origin_prefix_def edge_prefix_def origin_suffix_def edge_suffix_def)
  have c: "get_roku_stream_url s cid =
           (PStr (''https://aka-live491.delivery.roku.com/'' @ seg @ ''/t2-origin/out/v1/live.m3u8''), [])"
    if u: "u = ''https://osm.sr.roku.com/'' @ seg @ ''/live.m3u8''"
      and seg: "CHR ''/'' \<notin> set seg" "take 9 seg \<noteq> ''live.m3u8''" for seg
  proof -
    have u': "u = origin_prefix @ seg @ origin_suffix"
      using u by (simp add: origin_prefix_def origin_suffix_def)
    have "u = ''https://'' @ ''osm.sr.roku.com'' @ (''/'' @ seg @ ''/live.m3u8'')"
      using u by simp
    then have "str_contains ''osm.sr.roku.com'' u"
      using str_contains_append by metis
    then have "get_roku_stream_url s cid =
        (PStr (str_replace origin_suffix edge_suffix (str_replace origin_prefix edge_prefix u)), [])"
      using r by simp
    also have "\<dots> = (PStr (edge_prefix @ seg @ edge_suffix), [])"
      unfolding u' by (simp add: origin_rewrite[OF seg(1)] edge_rewrite[OF seg])
    finally show ?thesis
      by (simp add: edge_prefix_def edge_suffix_def)
  qed
  show ?thesis using a b c by blast
qed

theorem stream_url_rewrite_witness:
  "get_roku_stream_url
     (answering_session 200 (Inr (PDict [(''url'', PStr ''https://osm.sr.roku.com/abc/live.m3u8'')])))
     ''abc''
     = (PStr ''https://aka-live491.delivery.roku.com/abc/t2-origin/out/v1/live.m3u8'', [])
   \<and> get_roku_stream_url
     (answering_session 200 (Inr (PDict [(''url'', PStr ''https://cdn.example.com/abc/live.m3u8'')])))
     ''abc''
     = (PStr ''https://cdn.example.com/abc/live.m3u8'', [])"
proof -
  let ?u1 = "''https://osm.sr.roku.com/abc/live.m3u8''"
  let ?u2 = "''https://cdn.example.com/abc/live.m3u8''"
  let ?s1 = "answering_session 200 (Inr (PDict [(''url'', PStr ?u1)]))"
  let ?s2 = "answering_session 200 (Inr (PDict [(''url'', PStr ?u2)]))"
  let ?r = "json_response 200 (Inl JSONDecodeError)"
  have g1: "session_get ?s1 root_url = Inr ?r" and g2: "session_get ?s2 root_url = Inr ?r"
    by (simp_all add: answering_session_def)
  have p1: "session_post ?s1 playback_url (playback_data ''abc'')
           (playback_headers (header_lookup (headers ?r) ''csrf-token''))
          = Inr (json_response 200 (Inr (PDict [(''url'', PStr ?u1)])))"
    and p2: "session_post ?s2 playback_url (playback_data ''abc'')
           (playback_headers (header_lookup (headers ?r) ''csrf-token''))
          = Inr (json_response 200 (Inr (PDict [(''url'', PStr ?u2)])))"
    by (simp_all add: answering_session_def)
  have st: "\<And>v. status_code (json_response 200 v) = 200"
    and bj: "\<And>v. body_json (json_response 200 v) = v"
    by (simp_all add: json_response_def)
  have l1: "dict_lookup [(''url'', PStr ?u1)] ''url'' = Some (PStr ?u1)"
    and l2: "dict_lookup [(''url'', PStr ?u2)] ''url'' = Some (PStr ?u2)"
    by (simp_all add: dict_lookup_def)
  note t1 = stream_url_rewrite[OF g1 p1 st bj l1, THEN conjunct2, THEN conjunct2, rule_format,
      of "''abc''"]
  have r1: "get_roku_stream_url ?s1 ''abc'' =
      (PStr (''https://aka-live491.delivery.roku.com/'' @ ''abc'' @ ''/t2-origin/out/v1/live.m3u8''), [])"
    by (rule t1) simp
  note t2 = stream_url_rewrite[OF g2 p2 st bj l2, THEN conjunct1, rule_format]
  have r2: "get_roku_stream_url ?s2 ''abc'' = (PStr ?u2, [])"
    by (rule t2) simp
  show ?thesis using r1 r2 by simp
qed

section \<open>Properties of the record formatter\<close>



lemma replace_if_set_returns:
  "str_or_falsy v \<Longrightarrow> \<exists>t. replace_if_set v old new = Inr t"
  by (cases v) (auto simp: str_or_falsy_def replace_if_set_def)

lemma str_replace_char:
  "str_replace [q] [a] s = map (\<lambda>c. if c = q then a else c) s"
  by (induction s) (auto simp: str_replace_Cons)

lemma str_replace_drop_char:
  "str_replace [q] [] s = filter (\<lambda>c. c \<noteq> q) s"
  by (induction s) (auto simp: str_replace_Cons)

lemma replace_if_set_str [simp]:
  "replace_if_set (PStr s) [q] [a] = Inr (map (\<lambda>c. if c = q then a else c) s)"
  "replace_if_set (PStr s) [q] [] = Inr (filter (\<lambda>c. c \<noteq> q) s)"
  by (auto simp: replace_if_set_def str_replace_char str_replace_drop_char)


lemma format_extinf_returns:
  assumes "str_or_falsy tvg_name" "str_or_falsy group_title" "str_or_falsy display_name"
  shows "\<exists>n g d. format_extinf channel_id tvg_id tvg_chno tvg_name tvg_logo group_title display_name
           = Inr (extinf_line channel_id tvg_id (chno_str tvg_chno) n (py_str tvg_logo) g d)"
proof -
  obtain n where n: "replace_if_set tvg_name [CHR 0x22] [CHR 0x27] = Inr n"
    using replace_if_set_returns[OF assms(1)] by blast
  obtain g where g: "replace_if_set group_title [CHR 0x22] [CHR 0x27] = Inr g"
    using replace_if_set_returns[OF assms(2)] by blast
  obtain d where d: "replace_if_set display_name '','' [] = Inr d"
    using replace_if_set_returns[OF assms(3)] by blast
  show ?thesis by (simp add: format_extinf_def n g d) blast
qed




section \<open>Properties of the ordering\<close>


lemma map_err_Inr:
  "map_err f xs = Inr ys \<Longrightarrow> \<forall>x\<in>set xs. \<exists>y. f x = Inr y"
  by (induction xs arbitrary: ys) (auto split: sum.splits)

lemma map_err_Inl:
  "map_err f xs = Inl e \<Longrightarrow> \<exists>x\<in>set xs. f x = Inl e"
  by (induction xs) (auto split: sum.splits)




lemma py_sorted_Inl:
  "py_sorted key xs = Inl e \<Longrightarrow> \<exists>x\<in>set xs. key x = Inl e"
  by (auto simp: py_sorted_def dest: map_err_Inl split: sum.splits)










section \<open>Properties of the build\<close>

lemma map_err_length: "map_err f xs = Inr ys \<Longrightarrow> length ys = length xs"
  by (induction xs arbitrary: ys) (auto split: sum.splits)

lemma py_sorted_mset:
  assumes "py_sorted key xs = Inr ys"
  shows "mset ys = mset xs"
proof -
  from assms obtain ks where ks: "map_err key xs = Inr ks"
    and ys: "ys = map snd (sort_key fst (zip ks xs))"
    by (auto simp: py_sorted_def split: sum.splits)
  have "mset ys = mset (map snd (zip ks xs))"
    unfolding ys by simp
  also have "\<dots> = mset xs"
    using map_err_length[OF ks] by simp
  finally show ?thesis .
qed

lemma sorted_channel_ids_perm:
  "\<exists>ids lg. sorted_channel_ids mode (PDict kvs) = (Inr ids, lg) \<and> mset ids = mset (dict_keys kvs)"
proof (cases "sort_attempt mode (PDict kvs)")
  case (Inl e)
  then show ?thesis by (simp add: sorted_channel_ids_def py_keys_def)
next
  case (Inr ids)
  then have "mset ids = mset (dict_keys kvs)"
    by (auto simp: sort_attempt_def py_keys_def dest: py_sorted_mset split: if_splits)
  with Inr show ?thesis by (simp add: sorted_channel_ids_def)
qed

lemma build_entries_returns:
  assumes "\<forall>k\<in>set ids. \<exists>ls lg. channel_entry w chans k = (Inr ls, lg)"
  shows "build_entries w chans ids acc =
           (Inr (acc @ concat (map (entry_lines w chans) ids)),
            concat (map (\<lambda>k. snd (channel_entry w chans k)) ids))"
  using assms
proof (induction ids arbitrary: acc)
  case Nil
  then show ?case by simp
next
  case (Cons k ids)
  then obtain ls lg where e: "channel_entry w chans k = (Inr ls, lg)" by auto
  have "build_entries w chans ids (acc @ ls) =
           (Inr ((acc @ ls) @ concat (map (entry_lines w chans) ids)),
            concat (map (\<lambda>k. snd (channel_entry w chans k)) ids))"
    using Cons by simp
  moreover have "entry_lines w chans k = ls"
    by (simp add: entry_lines_def e)
  ultimately show ?case by (simp add: e)
qed



lemma catalog_present:
  assumes "dict_lookup root ''channels'' = Some chans"
  shows "catalog_missing (PDict root) = Inr False"
    and "py_get (PDict root) ''channels'' (PDict []) = Inr chans"
proof -
  from assms have "(''channels'', chans) \<in> set root"
    by (simp add: dict_lookup_def map_of_SomeD)
  then have "root \<noteq> []" "''channels'' \<in> fst ` set root"
    by force+
  then show "catalog_missing (PDict root) = Inr False"
    by (simp add: catalog_missing_def py_in_def)
  show "py_get (PDict root) ''channels'' (PDict []) = Inr chans"
    using assms by (simp add: py_get_def)
qed

lemma concat_entries:
  "concat (concat (map f ids)) = concat (map (\<lambda>k. concat (f k)) ids)"
  by (induction ids) simp_all

lemma generate_run:
  assumes fetch: "fetch_url w ROKU_URL True True = (PDict root, lg1)"
    and chans: "dict_lookup root ''channels'' = Some chans"
    and order: "sorted_channel_ids (case sort_arg of None \<Rightarrow> PStr ''chno'' | Some v \<Rightarrow> v) chans
                  = (Inr ids, lg2)"
    and entries: "\<forall>k\<in>set ids. \<exists>ls lg. channel_entry w chans k = (Inr ls, lg)"
  shows "generate_roku_playlist w sort_arg =
     \<lparr>raised = None,
      logged = [(INFO, ''--- Generating Roku playlist ---'', None)] @ lg1 @ lg2 @
               concat (map (\<lambda>k. snd (channel_entry w chans k)) ids) @
               snd (write_m3u_file w ''roku_all.m3u''
                      (header_line @ concat (map (\<lambda>k. concat (entry_lines w chans k)) ids))),
      written = fst (write_m3u_file w ''roku_all.m3u''
                      (header_line @ concat (map (\<lambda>k. concat (entry_lines w chans k)) ids)))\<rparr>"
  unfolding generate_roku_playlist_def Let_def
  by (simp add: fetch catalog_present[OF chans] order build_entries_returns[OF entries]
      concat_entries split: prod.splits)


lemma line_count_Nil [simp]: "line_count [] = 0"
  by (simp add: line_count_def)

lemma line_count_append [simp]: "line_count (a @ b) = line_count a + line_count b"
  by (simp add: line_count_def)


lemma line_count_header: "line_count header_line = 1"
  by (simp add: line_count_def header_line_def EPG_URL_def)



lemma fetch_offline: "fetch_url (offline_world data) ROKU_URL True True = (data, [])"
  by (simp add: fetch_url_def offline_world_def json_response_def)

lemma fetch_served:
  "fetch_url (served kvs) ROKU_URL True True = (PDict [(''channels'', PDict kvs)], [])"
  by (simp add: served_def fetch_offline)

lemma lookup_served: "dict_lookup [(''channels'', PDict kvs)] ''channels'' = Some (PDict kvs)"
  by (simp add: dict_lookup_def)












section \<open>Unavailable and empty catalogs\<close>

text \<open>
  When the fetch gives \<open>None\<close>, or a record without \<open>channels\<close>, the build logs the error
  and returns; nothing is written and nothing is raised.
\<close>

lemma catalog_unavailable:
  assumes "fetch_url w ROKU_URL True True = (data, lg1)"
    and "data = PNone \<or> (\<exists>kvs. data = PDict kvs \<and> dict_lookup kvs ''channels'' = None)"
  shows "generate_roku_playlist w sort_arg =
           \<lparr>raised = None,
            logged = [(INFO, ''--- Generating Roku playlist ---'', None)] @ lg1 @
                     [(ERROR, ''Failed to fetch or parse Roku data.'', None)],
            written = []\<rparr>"
proof -
  have "catalog_missing data = Inr True"
    using assms(2)
    by (auto simp: catalog_missing_def py_in_def dict_lookup_def map_of_eq_None_iff)
  then show ?thesis
    by (simp add: generate_roku_playlist_def assms(1))
qed

text \<open>
  Claim C8. The guard of line 108 does not cover every document without a \<open>channels\<close>
  mapping: for a decoded document that is a number other than zero, \<open>'channels' not in data\<close>
  raises \<open>TypeError\<close>, which reaches the caller.
\<close>

theorem scalar_catalog_raises:
  "generate_roku_playlist (offline_world (PInt 5)) None =
     \<lparr>raised = Some TypeError,
      logged = [(INFO, ''--- Generating Roku playlist ---'', None)],
      written = []\<rparr>"
  by (simp add: generate_roku_playlist_def fetch_offline catalog_missing_def py_in_def)

text \<open>
  Claim C10. When the fetch succeeds and the document's \<open>channels\<close> is an empty mapping,
  the build does not abort, whatever the sort mode: it hands exactly the header line to the
  file writer, so the file, when the write succeeds, holds that single line and no record.
\<close>

theorem empty_catalog_writes_header:
  assumes "fetch_url w ROKU_URL True True = (PDict root, lg1)"
    and "dict_lookup root ''channels'' = Some (PDict [])"
  shows \<open>raised (generate_roku_playlist w sort_arg) = None
     \<and> written (generate_roku_playlist w sort_arg) =
         fst (write_m3u_file w ''roku_all.m3u'' header_line)
     \<and> (file_write w ''roku_all.m3u'' header_line = None \<longrightarrow>
          written (generate_roku_playlist w sort_arg) = [(''roku_all.m3u'', header_line)])
     \<and> header_line =
          ''#EXTM3U url-tvg="https://github.com/matthuisman/i.mjh.nz/raw/master/Roku/all.xml.gz"''
          @ [CHR 0x0A]
     \<and> line_count header_line = 1\<close>
proof -
  let ?mode = "case sort_arg of None \<Rightarrow> PStr ''chno'' | Some v \<Rightarrow> v"
  have order: "sorted_channel_ids ?mode (PDict []) = (Inr [], [])"
    by (simp add: sorted_channel_ids_def sort_attempt_def py_keys_def dict_keys_def py_sorted_def)
  have entries: "\<forall>k\<in>set []. \<exists>ls lg. channel_entry w (PDict []) k = (Inr ls, lg)"
    by simp
  note run = generate_run[OF assms order entries]
  have "written (generate_roku_playlist w sort_arg) =
         fst (write_m3u_file w ''roku_all.m3u'' header_line)"
    by (simp add: run)
  moreover have "raised (generate_roku_playlist w sort_arg) = None"
    by (simp add: run)
  moreover have "fst (write_m3u_file w ''roku_all.m3u'' header_line) =
      [(''roku_all.m3u'', header_line)]" if "file_write w ''roku_all.m3u'' header_line = None"
    using that by (simp add: write_m3u_file_def)
  ultimately show ?thesis
    by (simp add: line_count_header) (simp add: header_line_def EPG_URL_def)
qed

theorem empty_catalog_writes_header_witness:
  "raised (generate_roku_playlist (served []) (Some (PStr ''name''))) = None
   \<and> written (generate_roku_playlist (served []) (Some (PStr ''name''))) =
       [(''roku_all.m3u'', header_line)]"
proof -
  have f: "file_write (served []) ''roku_all.m3u'' header_line = None"
    by (simp add: served_def offline_world_def)
  show ?thesis
    using empty_catalog_writes_header[OF fetch_served lookup_served, of "Some (PStr ''name'')"] f
    by blast
qed

section \<open>Ordering failures and the sort mode\<close>












section \<open>Catalogs on which the build completes\<close>

text \<open>
  For a catalog of well-shaped channels, when every resolved URL is a string and the file
  can be written, the build returns normally and writes one document, whatever the sort
  mode and whether or not the ordering fell back.
\<close>

lemma channel_entry_returns:
  assumes "dict_lookup kvs k = Some c" and "well_shaped_channel c"
    and "fst (get_roku_stream_url (new_session w k) k) = PStr u"
  shows "\<exists>ls lg. channel_entry w (PDict kvs) k = (Inr ls, lg)"
proof -
  from assms(2) obtain ch where c: "c = PDict ch"
    by (auto simp: well_shaped_channel_def split: pyval.splits)
  define name where
    "name = (case dict_lookup ch ''name'' of Some v \<Rightarrow> v | None \<Rightarrow> PStr ''Unknown Channel'')"
  define groups_list where
    "groups_list = (case dict_lookup ch ''groups'' of Some v \<Rightarrow> v | None \<Rightarrow> PList [])"
  from assms(2) obtain g where n: "str_or_falsy name"
    and g: "first_group groups_list = Inr g" "str_or_falsy g"
    unfolding c well_shaped_channel_def name_def groups_list_def
    by (auto split: sum.splits)
  have gets: "py_get (PDict ch) ''name'' (PStr ''Unknown Channel'') = Inr name"
    "py_get (PDict ch) ''groups'' (PList []) = Inr groups_list"
    by (auto simp: py_get_def name_def groups_list_def split: option.splits)
  define chno where
    "chno = (case dict_lookup ch ''chno'' of Some v \<Rightarrow> v | None \<Rightarrow> PNone)"
  define logo where
    "logo = (case dict_lookup ch ''logo'' of Some v \<Rightarrow> v | None \<Rightarrow> PStr [])"
  have gets2: "py_get (PDict ch) ''chno'' PNone = Inr chno"
    "py_get (PDict ch) ''logo'' (PStr []) = Inr logo"
    by (auto simp: py_get_def chno_def logo_def split: option.splits)
  obtain extinf where f: "format_extinf k k chno name logo g name = Inr extinf"
    using format_extinf_returns[OF n g(2) n] by blast
  obtain su lg where r: "get_roku_stream_url (new_session w k) k = (PStr su, lg)"
    using assms(3) by (cases "get_roku_stream_url (new_session w k) k") auto
  show ?thesis
    by (simp add: channel_entry_def py_getitem_def assms(1) c gets gets2 g(1) f r py_add_str_def)
qed

lemma well_shaped_catalog_written:
  assumes fetch: "fetch_url w ROKU_URL True True = (PDict root, lg1)"
    and chans: "dict_lookup root ''channels'' = Some (PDict kvs)"
    and shaped: "\<forall>k\<in>set (dict_keys kvs). \<forall>c. dict_lookup kvs k = Some c \<longrightarrow> well_shaped_channel c"
    and urls: "\<forall>k\<in>set (dict_keys kvs). \<exists>u. fst (get_roku_stream_url (new_session w k) k) = PStr u"
    and sink: "\<forall>doc. file_write w ''roku_all.m3u'' doc = None"
  shows "raised (generate_roku_playlist w sort_arg) = None
     \<and> (\<exists>doc. written (generate_roku_playlist w sort_arg) = [(''roku_all.m3u'', doc)])"
proof -
  let ?mode = "case sort_arg of None \<Rightarrow> PStr ''chno'' | Some v \<Rightarrow> v"
  obtain ids lg2 where order: "sorted_channel_ids ?mode (PDict kvs) = (Inr ids, lg2)"
    and perm: "mset ids = mset (dict_keys kvs)"
    using sorted_channel_ids_perm by blast
  have keys: "set ids = set (dict_keys kvs)"
    using perm by (rule mset_eq_setD)
  have entries: "\<forall>k\<in>set ids. \<exists>ls lg. channel_entry w (PDict kvs) k = (Inr ls, lg)"
  proof
    fix k assume k: "k \<in> set ids"
    then have "k \<in> fst ` set kvs"
      unfolding keys by (simp add: dict_keys_def)
    then obtain c where c: "dict_lookup kvs k = Some c"
      unfolding dict_lookup_def by (metis map_of_eq_None_iff not_Some_eq)
    with shaped k keys have "well_shaped_channel c" by blast
    moreover from urls k keys obtain u where
      "fst (get_roku_stream_url (new_session w k) k) = PStr u" by blast
    ultimately show "\<exists>ls lg. channel_entry w (PDict kvs) k = (Inr ls, lg)"
      using channel_entry_returns[OF c] by blast
  qed
  show ?thesis
    by (simp add: generate_run[OF fetch chans order entries] write_m3u_file_def sink)
qed

end
